theory Spec2Isabelle
  imports Main
begin

section \<open>Python strings and the character classes of the \<open>string\<close> module\<close>

text \<open>
  A Python \<open>str\<close> is modelled as a \<open>string\<close> (a list of \<open>char\<close>). Every candidate
  that \<open>generate_password\<close> hands to the checker is drawn from the four ASCII classes
  below; on ASCII characters the methods \<open>isupper\<close>, \<open>islower\<close>, \<open>isdigit\<close> and
  \<open>lower\<close> of Python are exactly the functions defined here. Python's methods follow
  the Unicode tables: outside ASCII they know further letters and digits, which these
  definitions do not. The embedding is therefore one of the program on ASCII strings,
  and the claims below are stated for the candidates of \<open>generate_password\<close> or at
  concrete ASCII strings.
\<close>

definition ascii_uppercase :: string where
  "ascii_uppercase = ''ABCDEFGHIJKLMNOPQRSTUVWXYZ''"

definition ascii_lowercase :: string where
  "ascii_lowercase = ''abcdefghijklmnopqrstuvwxyz''"

definition digits :: string where
  "digits = ''0123456789''"

text \<open>\<open>string.punctuation\<close>: the 32 ASCII punctuation characters, in code-point order.
  The double quote, the apostrophe, the backslash and the backquote are given by code.\<close>

definition punctuation :: string where
  "punctuation =
     ''!'' @ [CHR 0x22] @ ''#$%&'' @ [CHR 0x27] @ ''()*+,-./:;<=>?@['' @ [CHR 0x5C]
       @ '']^_'' @ [CHR 0x60] @ ''{|}~''"

definition newline :: char where
  "newline = CHR 0x0A"

definition isupper :: "char \<Rightarrow> bool" where
  "isupper c = (c \<in> set ascii_uppercase)"

definition islower :: "char \<Rightarrow> bool" where
  "islower c = (c \<in> set ascii_lowercase)"

definition isdigit :: "char \<Rightarrow> bool" where
  "isdigit c = (c \<in> set digits)"

text \<open>\<open>str.lower\<close>: each of A-Z goes to the letter at the same place of a-z, every
  other character stays.\<close>

definition lower_chr :: "char \<Rightarrow> char" where
  "lower_chr c =
     (case map_of (zip ascii_uppercase ascii_lowercase) c of Some d \<Rightarrow> d | None \<Rightarrow> c)"

definition lower :: "string \<Rightarrow> string" where
  "lower s = map lower_chr s"

text \<open>\<open>s.startswith(w)\<close>, and the operator \<open>w in s\<close> on strings (substring test).\<close>

fun startswith :: "string \<Rightarrow> string \<Rightarrow> bool" where
  "startswith s [] = True"
| "startswith [] (c # w) = False"
| "startswith (d # s) (c # w) = (d = c \<and> startswith s w)"

fun str_in :: "string \<Rightarrow> string \<Rightarrow> bool" where
  "str_in w [] = (w = [])"
| "str_in w (c # s) = (startswith (c # s) w \<or> str_in w s)"

text \<open>\<open>re.search(r'(.)\1\1', s)\<close> as a truth value: some position holds a character
  that \<open>.\<close> matches, followed by two copies of it. Without the DOTALL flag \<open>.\<close>
  matches every character but the line feed.\<close>

fun re_search_repeat :: "string \<Rightarrow> bool" where
  "re_search_repeat (a # b # c # s) =
     ((a \<noteq> newline \<and> b = a \<and> c = a) \<or> re_search_repeat (b # c # s))"
| "re_search_repeat s = False"

section \<open>Program state\<close>

text \<open>
  The state a request can see: the two module-level tables, and the operating system's
  random source behind \<open>secrets\<close>. The source is an arbitrary sequence of numbers,
  \<open>entropy w k\<close> being the value that the \<open>k\<close>-th call of \<open>secrets.choice\<close> reads;
  \<open>consumed\<close> counts these calls. \<open>draws\<close> counts the candidate strings drawn so far
  (the evaluations of the \<open>''.join(...)\<close> expression); the program does not store it.
\<close>

record world =
  COMMON_WORDS :: "string list"
  KEYBOARD_PATTERNS :: "string list"
  entropy :: "nat \<Rightarrow> nat"
  consumed :: nat
  draws :: nat

text \<open>The tables as the module initialises them (lines 25-32).\<close>

definition module_init :: "(nat \<Rightarrow> nat) \<Rightarrow> world" where
  "module_init src =
     \<lparr> COMMON_WORDS =
         [''password'', ''admin'', ''welcome'', ''123456'', ''qwerty'', ''user'', ''guest'',
          ''login'', ''test'', ''root'', ''secret'', ''dragon'', ''shadow'', ''ninja'',
          ''football'', ''monkey'', ''master'', ''sunshine'', ''princess'', ''love''],
       KEYBOARD_PATTERNS = [''qwerty'', ''asdfgh'', ''zxcvbn'', ''12345'', ''qazwsx''],
       entropy = src, consumed = 0, draws = 0 \<rparr>"

section \<open>The strength checker\<close>

definition check_password_strength :: "world \<Rightarrow> string \<Rightarrow> string \<Rightarrow> bool \<times> world" where
  "check_password_strength w password level =
     (if list_ex (\<lambda>word. str_in word (lower password)) (COMMON_WORDS w) then (False, w)
      else if re_search_repeat password then (False, w)
      else if list_ex (\<lambda>pattern. str_in pattern (lower password)) (KEYBOARD_PATTERNS w)
        then (False, w)
      else
        let has_upper = list_ex isupper password;
            has_lower = list_ex islower password;
            has_digit = list_ex isdigit password;
            has_symbol = list_ex (\<lambda>c. c \<in> set punctuation) password;
            char_type_count =
              (sum_list (map of_bool [has_upper, has_lower, has_digit, has_symbol]) :: nat)
        in if level = ''easy'' then (True, w)
           else if level = ''strong'' then (3 \<le> char_type_count, w)
           else if level = ''max'' then (char_type_count = 4, w)
           else (False, w))"

section \<open>The request handler\<close>

text \<open>
  The request after lines 86-92 have read it: the length as \<open>int(...)\<close> returned it,
  the four flags by their truth value, and the level. A level that is not a string
  compares unequal to the three names, as an unknown string does.
\<close>

record request =
  req_length :: int
  use_upper :: bool
  use_lower :: bool
  use_numbers :: bool
  use_symbols :: bool
  strength_level :: string

text \<open>Responses: the JSON body with its HTTP status (200 for the two password shapes).\<close>

datatype response =
    Password string
  | PasswordWarning string string
  | Error string nat

datatype py_error = IndexError

definition str_of_error :: "py_error \<Rightarrow> string" where
  "str_of_error e = (case e of IndexError \<Rightarrow> ''Cannot choose from an empty sequence'')"

definition warning_text :: string where
  "warning_text =
     ''Could not meet all strength criteria. Consider more characters or a lower setting.''"

text \<open>\<open>secrets.choice(seq)\<close>: IndexError on an empty sequence, else the element at a
  random index below \<open>len(seq)\<close>. The index is the next value of the source modulo
  \<open>len(seq)\<close>, so that every sequence of indices arises from some source.\<close>

definition secrets_choice :: "world \<Rightarrow> string \<Rightarrow> (py_error + char) \<times> world" where
  "secrets_choice w seq =
     (if seq = [] then (Inl IndexError, w)
      else (Inr (seq ! (entropy w (consumed w) mod length seq)),
            w\<lparr>consumed := Suc (consumed w)\<rparr>))"

text \<open>\<open>''.join(secrets.choice(char_set) for i in range(k))\<close>.\<close>

fun join_choices :: "world \<Rightarrow> string \<Rightarrow> nat \<Rightarrow> (py_error + string) \<times> world" where
  "join_choices w char_set 0 = (Inr [], w)"
| "join_choices w char_set (Suc k) =
     (case secrets_choice w char_set of
        (Inl e, w1) \<Rightarrow> (Inl e, w1)
      | (Inr c, w1) \<Rightarrow>
          (case join_choices w1 char_set k of
             (Inl e, w2) \<Rightarrow> (Inl e, w2)
           | (Inr s, w2) \<Rightarrow> (Inr (c # s), w2)))"

text \<open>One candidate: \<open>range(length)\<close> is empty for a length below 1. The counter
  \<open>draws\<close> records that a candidate is being drawn.\<close>

definition draw_password :: "world \<Rightarrow> string \<Rightarrow> int \<Rightarrow> (py_error + string) \<times> world" where
  "draw_password w char_set n =
     join_choices (w\<lparr>draws := Suc (draws w)\<rparr>) char_set (nat n)"

text \<open>Lines 94-99.\<close>

definition build_char_set :: "request \<Rightarrow> string" where
  "build_char_set req =
     (let char_set = [];
          char_set = (if use_upper req then char_set @ ascii_uppercase else char_set);
          char_set = (if use_lower req then char_set @ ascii_lowercase else char_set);
          char_set = (if use_numbers req then char_set @ digits else char_set);
          char_set = (if use_symbols req then char_set @ punctuation else char_set)
      in char_set)"

text \<open>The loop of lines 107-110, with the number of iterations left. \<open>None\<close>: the loop
  ran out without a return.\<close>

fun attempt_loop ::
  "nat \<Rightarrow> world \<Rightarrow> string \<Rightarrow> int \<Rightarrow> string \<Rightarrow> (py_error + response option) \<times> world"
where
  "attempt_loop 0 w char_set n level = (Inr None, w)"
| "attempt_loop (Suc k) w char_set n level =
     (case draw_password w char_set n of
        (Inl e, w1) \<Rightarrow> (Inl e, w1)
      | (Inr password, w1) \<Rightarrow>
          (let (ok, w2) = check_password_strength w1 password level
           in if ok then (Inr (Some (Password password)), w2)
              else attempt_loop k w2 char_set n level))"

text \<open>The handler from line 94 on: the empty alphabet is answered with status 400
  before the loop; an exception is caught and answered with status 500; after a loop
  without return, one more candidate is drawn and returned with the warning.\<close>

definition generate_password :: "world \<Rightarrow> request \<Rightarrow> response \<times> world" where
  "generate_password w req =
     (let char_set = build_char_set req in
      if char_set = [] then (Error ''Please select at least one character type.'' 400, w)
      else
        (case attempt_loop 100 w char_set (req_length req) (strength_level req) of
           (Inl e, w1) \<Rightarrow> (Error (str_of_error e) 500, w1)
         | (Inr (Some r), w1) \<Rightarrow> (r, w1)
         | (Inr None, w1) \<Rightarrow>
             (case draw_password w1 char_set (req_length req) of
                (Inl e, w2) \<Rightarrow> (Error (str_of_error e) 500, w2)
              | (Inr password, w2) \<Rightarrow> (PasswordWarning password warning_text, w2))))"

section \<open>Notions used to state the properties\<close>

text \<open>The verdict of the checker, without the state it hands back.\<close>

definition accepted :: "world \<Rightarrow> string \<Rightarrow> string \<Rightarrow> bool" where
  "accepted w password level = fst (check_password_strength w password level)"

text \<open>
  The candidates in closed form. Every draw reads \<open>n\<close> values of the random source, so
  the \<open>j\<close>-th candidate drawn from \<open>w\<close> (counting from 0) is made of the values at
  positions \<open>consumed w + j * n\<close> up to \<open>consumed w + j * n + n - 1\<close>; \<open>advance w n m\<close>
  is the state after \<open>m\<close> draws. \<open>attempt w req j\<close> is the \<open>j\<close>-th candidate of a request:
  indices 0 to 99 are the candidates of the loop, index 100 is the draw after the loop.
\<close>

definition candidate :: "world \<Rightarrow> string \<Rightarrow> nat \<Rightarrow> nat \<Rightarrow> string" where
  "candidate w char_set n j =
     map (\<lambda>i. char_set ! (entropy w (consumed w + j * n + i) mod length char_set)) [0..<n]"

definition advance :: "world \<Rightarrow> nat \<Rightarrow> nat \<Rightarrow> world" where
  "advance w n m = w\<lparr>consumed := consumed w + m * n, draws := draws w + m\<rparr>"

definition attempt :: "world \<Rightarrow> request \<Rightarrow> nat \<Rightarrow> string" where
  "attempt w req j = candidate w (build_char_set req) (nat (req_length req)) j"

subsection \<open>The rules of the checker in the specification's words\<close>

text \<open>\<open>w\<close> occurs in \<open>s\<close> at some offset.\<close>

definition substring :: "string \<Rightarrow> string \<Rightarrow> bool" where
  "substring w s = list_ex (\<lambda>i. take (length w) (drop i s) = w) [0..<Suc (length s)]"

text \<open>Some position starts a run of three equal characters, the character being one
  that \<open>P\<close> admits.\<close>

definition repeats3 :: "(char \<Rightarrow> bool) \<Rightarrow> string \<Rightarrow> bool" where
  "repeats3 P s =
     list_ex (\<lambda>i. P (s ! i) \<and> s ! (i + 1) = s ! i \<and> s ! (i + 2) = s ! i) [0..<length s - 2]"

definition any_char :: "char \<Rightarrow> bool" where
  "any_char c = True"

definition not_newline :: "char \<Rightarrow> bool" where
  "not_newline c = (c \<noteq> newline)"

text \<open>The number of character classes, out of four, that have a member in \<open>s\<close>.\<close>

definition diversity :: "string \<Rightarrow> nat" where
  "diversity s =
     length (filter (\<lambda>C. \<exists>c\<in>set s. C c) [isupper, islower, isdigit, \<lambda>c. c \<in> set punctuation])"

text \<open>The three universal rules (common token, repetition, keyboard pattern), and the
  condition of each level.\<close>

definition universal_rules :: "(char \<Rightarrow> bool) \<Rightarrow> world \<Rightarrow> string \<Rightarrow> bool" where
  "universal_rules P w s =
     (\<not> list_ex (\<lambda>word. substring word (lower s)) (COMMON_WORDS w) \<and>
      \<not> repeats3 P s \<and>
      \<not> list_ex (\<lambda>pattern. substring pattern (lower s)) (KEYBOARD_PATTERNS w))"

definition level_rule :: "string \<Rightarrow> string \<Rightarrow> bool" where
  "level_rule level s =
     (level = ''easy'' \<or> (level = ''strong'' \<and> 3 \<le> diversity s) \<or>
      (level = ''max'' \<and> diversity s = 4))"


subsection \<open>Concrete requests and random sources\<close>

text \<open>The request with every field at the default of lines 87-92.\<close>

definition default_request :: request where
  "default_request =
     \<lparr> req_length = 16, use_upper = True, use_lower = True, use_numbers = True,
       use_symbols = True, strength_level = ''strong'' \<rparr>"

text \<open>Three random sources: a constant one, \<open>k \<mapsto> a * k\<close>, and one that yields 0 for
  the first \<open>m\<close> reads and counts up from 0 afterwards.\<close>

definition const_source :: "nat \<Rightarrow> nat \<Rightarrow> nat" where
  "const_source v k = v"

definition scaled_source :: "nat \<Rightarrow> nat \<Rightarrow> nat" where
  "scaled_source a k = a * k"

definition late_source :: "nat \<Rightarrow> nat \<Rightarrow> nat" where
  "late_source m k = (if k < m then 0 else k - m)"

section \<open>Auxiliary facts\<close>

text \<open>Facts about the definitions above. They describe the program where the strings
  are ASCII, as every candidate of \<open>generate_password\<close> is.\<close>

lemma check_password_strength_world: "snd (check_password_strength w p l) = w"
  by (simp add: check_password_strength_def Let_def)

lemma check_password_strength_eq: "check_password_strength w p l = (accepted w p l, w)"
  by (simp add: accepted_def prod_eq_iff check_password_strength_world)

lemma accepted_tables:
  "COMMON_WORDS w' = COMMON_WORDS w \<Longrightarrow> KEYBOARD_PATTERNS w' = KEYBOARD_PATTERNS w \<Longrightarrow>
   accepted w' p l = accepted w p l"
  by (simp add: accepted_def check_password_strength_def Let_def)

lemma accepted_advance [simp]: "accepted (advance w n m) p l = accepted w p l"
  by (rule accepted_tables) (simp_all add: advance_def)

lemma upt_0_Suc_map: "map f [0..<Suc k] = f 0 # map (\<lambda>i. f (Suc i)) [0..<k]"
proof -
  have "[0..<Suc k] = 0 # map Suc [0..<k]"
    by (simp add: upt_conv_Cons map_Suc_upt del: upt_Suc)
  then show ?thesis by (simp add: comp_def del: upt_Suc)
qed

lemma join_choices_eq:
  "cs \<noteq> [] \<Longrightarrow>
   join_choices w cs k =
     (Inr (map (\<lambda>i. cs ! (entropy w (consumed w + i) mod length cs)) [0..<k]),
      w\<lparr>consumed := consumed w + k\<rparr>)"
proof (induction k arbitrary: w)
  case 0
  then show ?case by simp
next
  case (Suc k)
  show ?case
    using Suc.prems
    by (simp add: secrets_choice_def Suc.IH [OF Suc.prems] upt_0_Suc_map del: upt_Suc)
qed

lemma draw_password_eq:
  "cs \<noteq> [] \<Longrightarrow> draw_password w cs n = (Inr (candidate w cs (nat n) 0), advance w (nat n) 1)"
  by (simp add: draw_password_def join_choices_eq candidate_def advance_def)

lemma candidate_advance [simp]:
  "candidate (advance w n m) cs n j = candidate w cs n (m + j)"
  by (simp add: candidate_def advance_def algebra_simps)

lemma advance_advance [simp]: "advance (advance w n a) n b = advance w n (a + b)"
  by (simp add: advance_def algebra_simps)

lemma attempt_loop_exhausted:
  "cs \<noteq> [] \<Longrightarrow> \<forall>j<k. \<not> accepted w (candidate w cs (nat n) j) lvl \<Longrightarrow>
   attempt_loop k w cs n lvl = (Inr None, advance w (nat n) k)"
proof (induction k arbitrary: w)
  case 0
  then show ?case by (simp add: advance_def)
next
  case (Suc k)
  have rej: "\<not> accepted w (candidate w cs (nat n) 0) lvl"
    using Suc.prems(2) by simp
  have rest: "\<forall>j<k. \<not> accepted (advance w (nat n) 1) (candidate (advance w (nat n) 1) cs (nat n) j) lvl"
    using Suc.prems(2) by simp
  show ?case
    using rej Suc.IH [OF Suc.prems(1) rest]
    by (simp add: draw_password_eq [OF Suc.prems(1)] check_password_strength_eq)
qed

lemma attempt_loop_accepted:
  "cs \<noteq> [] \<Longrightarrow> j < k \<Longrightarrow> accepted w (candidate w cs (nat n) j) lvl \<Longrightarrow>
   \<forall>i<j. \<not> accepted w (candidate w cs (nat n) i) lvl \<Longrightarrow>
   attempt_loop k w cs n lvl =
     (Inr (Some (Password (candidate w cs (nat n) j))), advance w (nat n) (Suc j))"
proof (induction k arbitrary: w j)
  case 0
  then show ?case by simp
next
  case (Suc k)
  show ?case
  proof (cases j)
    case 0
    with Suc.prems show ?thesis
      by (simp add: draw_password_eq check_password_strength_eq)
  next
    case (Suc j')
    let ?w = "advance w (nat n) 1"
    have rej: "\<not> accepted w (candidate w cs (nat n) 0) lvl"
      using Suc.prems(4) Suc by simp
    have a: "accepted ?w (candidate ?w cs (nat n) j') lvl"
      using Suc.prems(3) Suc by simp
    have b: "\<forall>i<j'. \<not> accepted ?w (candidate ?w cs (nat n) i) lvl"
      using Suc.prems(4) Suc by simp
    have c: "j' < k" using Suc.prems(2) Suc by simp
    show ?thesis
      using rej Suc.IH [OF Suc.prems(1) c a b] Suc
      by (simp add: draw_password_eq [OF Suc.prems(1)] check_password_strength_eq)
  qed
qed

lemma startswith_take: "startswith s w \<longleftrightarrow> take (length w) s = w"
  by (induction s w rule: startswith.induct) auto

lemma substring_Nil: "substring w [] \<longleftrightarrow> w = []"
  by (auto simp: substring_def)

lemma substring_Cons:
  "substring w (c # s) \<longleftrightarrow> take (length w) (c # s) = w \<or> substring w s"
  unfolding substring_def list_ex_iff set_upt
  by (simp add: Bex_def Ex_less_Suc2 del: take_Suc_Cons)

lemma str_in_substring: "str_in w s \<longleftrightarrow> substring w s"
  by (induction s) (simp_all add: substring_Nil substring_Cons startswith_take del: startswith.simps)

lemma substring_iff: "substring w s \<longleftrightarrow> (\<exists>ps ss. s = ps @ w @ ss)"
proof
  assume "substring w s"
  then obtain i where "take (length w) (drop i s) = w"
    by (auto simp: substring_def list_ex_iff)
  then have "s = take i s @ w @ drop (length w) (drop i s)"
    by (metis append_take_drop_id)
  then show "\<exists>ps ss. s = ps @ w @ ss" by blast
next
  assume "\<exists>ps ss. s = ps @ w @ ss"
  then obtain ps ss where s: "s = ps @ w @ ss" by blast
  have "length ps < Suc (length s)" "take (length w) (drop (length ps) s) = w"
    by (simp_all add: s)
  then show "substring w s"
    unfolding substring_def list_ex_iff by (metis atLeast0LessThan lessThan_iff set_upt)
qed

lemma repeats3_short: "length s < 3 \<Longrightarrow> \<not> repeats3 P s"
  by (simp add: repeats3_def list_ex_iff)

lemma repeats3_Cons3:
  "repeats3 P (a # b # c # s) \<longleftrightarrow> (P a \<and> b = a \<and> c = a) \<or> repeats3 P (b # c # s)"
  unfolding repeats3_def list_ex_iff set_upt
  by (simp add: Bex_def Ex_less_Suc2)

lemma re_search_repeat_repeats3: "re_search_repeat s \<longleftrightarrow> repeats3 not_newline s"
  by (induction s rule: re_search_repeat.induct)
     (simp_all add: repeats3_Cons3 repeats3_short not_newline_def)

lemma char_type_count_diversity:
  "sum_list (map of_bool [list_ex isupper s, list_ex islower s, list_ex isdigit s,
      list_ex (\<lambda>c. c \<in> set punctuation) s]) = diversity s"
  by (simp add: diversity_def list_ex_iff)

lemma accepted_iff:
  "accepted w s level \<longleftrightarrow> universal_rules not_newline w s \<and> level_rule level s"
  by (simp add: accepted_def check_password_strength_def Let_def universal_rules_def
      level_rule_def str_in_substring re_search_repeat_repeats3 char_type_count_diversity
      del: sum_list.Cons list.map)

lemma generate_password_exhausted:
  assumes "build_char_set req \<noteq> []"
    and "\<forall>j<100. \<not> accepted w (candidate w (build_char_set req) (nat (req_length req)) j)
            (strength_level req)"
  shows "generate_password w req =
           (PasswordWarning (candidate w (build_char_set req) (nat (req_length req)) 100)
              warning_text,
            advance w (nat (req_length req)) 101)"
  using assms
  by (simp add: generate_password_def Let_def attempt_loop_exhausted draw_password_eq)

lemma generate_password_accepted:
  assumes "build_char_set req \<noteq> []" and "j < 100"
    and "accepted w (candidate w (build_char_set req) (nat (req_length req)) j)
           (strength_level req)"
    and "\<forall>i<j. \<not> accepted w (candidate w (build_char_set req) (nat (req_length req)) i)
            (strength_level req)"
  shows "generate_password w req =
           (Password (candidate w (build_char_set req) (nat (req_length req)) j),
            advance w (nat (req_length req)) (Suc j))"
  using assms
  by (simp add: generate_password_def Let_def attempt_loop_accepted [where j = j])

lemma generate_password_empty:
  "build_char_set req = [] \<Longrightarrow>
   generate_password w req = (Error ''Please select at least one character type.'' 400, w)"
  by (simp add: generate_password_def)

lemma first_accepted:
  assumes "\<exists>j<k. P j"
  obtains j :: nat where "j < k" "P j" "\<forall>i<j. \<not> P i"
proof -
  from assms obtain m where m: "m < k \<and> P m" by blast
  define j where "j = (LEAST m. m < k \<and> P m)"
  have "j < k \<and> P j" unfolding j_def using m by (rule LeastI)
  moreover have "\<forall>i<j. \<not> P i"
  proof (intro allI impI notI)
    fix i assume "i < j" "P i"
    with \<open>j < k \<and> P j\<close> have "i < k \<and> P i" by simp
    then have "j \<le> i" unfolding j_def by (rule Least_le)
    with \<open>i < j\<close> show False by simp
  qed
  ultimately show thesis using that by blast
qed

lemma build_char_set_concat:
  "build_char_set req =
     concat (map snd (filter fst
       [(use_upper req, ascii_uppercase), (use_lower req, ascii_lowercase),
        (use_numbers req, digits), (use_symbols req, punctuation)]))"
  by (simp add: build_char_set_def)

lemma build_char_set_Nil:
  "build_char_set req = [] \<longleftrightarrow>
     \<not> use_upper req \<and> \<not> use_lower req \<and> \<not> use_numbers req \<and> \<not> use_symbols req"
  by (simp add: build_char_set_def ascii_uppercase_def ascii_lowercase_def digits_def
      punctuation_def)

lemma newline_notin_char_set: "newline \<notin> set (build_char_set req)"
  by (simp add: build_char_set_def Let_def ascii_uppercase_def ascii_lowercase_def digits_def
      punctuation_def newline_def)

lemma set_candidate: "cs \<noteq> [] \<Longrightarrow> set (candidate w cs n j) \<subseteq> set cs"
  by (auto simp: candidate_def)

lemma length_candidate: "length (candidate w cs n j) = n"
  by (simp add: candidate_def)

lemma repeats3_no_newline:
  assumes "newline \<notin> set s"
  shows "repeats3 any_char s \<longleftrightarrow> repeats3 not_newline s"
proof -
  have "s ! i \<noteq> newline" if "i < length s - 2" for i
  proof -
    from that have "i < length s" by simp
    then have "s ! i \<in> set s" by (rule nth_mem)
    with assms show ?thesis by auto
  qed
  then show ?thesis
    by (auto simp: repeats3_def list_ex_iff any_char_def not_newline_def)
qed

lemma universal_rules_no_newline:
  "newline \<notin> set s \<Longrightarrow> universal_rules any_char w s \<longleftrightarrow> universal_rules not_newline w s"
  by (simp add: universal_rules_def repeats3_no_newline)

lemma candidate_no_newline:
  "build_char_set req \<noteq> [] \<Longrightarrow> newline \<notin> set (candidate w (build_char_set req) n j)"
  using set_candidate newline_notin_char_set by blast

lemma generate_password_result:
  assumes "build_char_set req \<noteq> []"
  obtains (success) j where "j < 100"
      "accepted w (attempt w req j) (strength_level req)"
      "\<forall>i<j. \<not> accepted w (attempt w req i) (strength_level req)"
      "generate_password w req =
         (Password (attempt w req j), advance w (nat (req_length req)) (Suc j))"
  | (fallback) "\<forall>j<100. \<not> accepted w (attempt w req j) (strength_level req)"
      "generate_password w req =
         (PasswordWarning (attempt w req 100) warning_text,
          advance w (nat (req_length req)) 101)"
proof (cases "\<exists>j<100. accepted w (attempt w req j) (strength_level req)")
  case True
  then obtain j where j: "j < 100" "accepted w (attempt w req j) (strength_level req)"
      "\<forall>i<j. \<not> accepted w (attempt w req i) (strength_level req)"
    by (rule first_accepted)
  from generate_password_accepted [OF assms j(1) j(2) [unfolded attempt_def] j(3) [unfolded attempt_def]]
  show ?thesis using j by (intro success [of j]) (simp_all add: attempt_def)
next
  case False
  then have rej: "\<forall>j<100. \<not> accepted w (attempt w req j) (strength_level req)" by blast
  from generate_password_exhausted [OF assms rej [unfolded attempt_def]]
  show ?thesis using rej by (intro fallback) (simp_all add: attempt_def)
qed

lemma generate_password_PasswordD:
  assumes "fst (generate_password w req) = Password p"
  shows "build_char_set req \<noteq> [] \<and>
         (\<exists>j<100. p = attempt w req j \<and> accepted w p (strength_level req))"
proof -
  have ne: "build_char_set req \<noteq> []"
    using assms by (auto simp: generate_password_empty)
  from ne show ?thesis
  proof (cases rule: generate_password_result [where w = w])
    case (success j)
    with assms ne show ?thesis by auto
  next
    case fallback
    with assms show ?thesis by simp
  qed
qed

lemma draws_advance [simp]: "draws (advance w n m) = draws w + m"
  by (simp add: advance_def)

lemma consumed_advance [simp]: "consumed (advance w n m) = consumed w + m * n"
  by (simp add: advance_def)

lemma candidate_const_source:
  "entropy w = const_source v \<Longrightarrow> candidate w cs n j = replicate n (cs ! (v mod length cs))"
  by (simp add: candidate_def const_source_def map_replicate_const)

lemma digits_diversity:
  assumes "set s \<subseteq> set digits"
  shows "diversity s \<le> 1"
proof -
  have "\<not> isupper c \<and> \<not> islower c \<and> c \<notin> set punctuation" if "c \<in> set s" for c
  proof -
    from that assms have "c \<in> set digits" by auto
    then show ?thesis
      by (auto simp: digits_def isupper_def islower_def ascii_uppercase_def
          ascii_lowercase_def punctuation_def)
  qed
  then show ?thesis by (auto simp: diversity_def)
qed

lemma unknown_level_rejected:
  "level \<noteq> ''easy'' \<Longrightarrow> level \<noteq> ''strong'' \<Longrightarrow> level \<noteq> ''max'' \<Longrightarrow>
   \<not> accepted w p level"
  by (simp add: accepted_iff level_rule_def)

lemma module_init_sel [simp]:
  "entropy (module_init src) = src" "consumed (module_init src) = 0"
  "draws (module_init src) = 0"
  by (simp_all add: module_init_def)

lemma char_set_default:
  "build_char_set (default_request\<lparr>req_length := n, strength_level := lvl\<rparr>) =
     ascii_uppercase @ ascii_lowercase @ digits @ punctuation"
  by (simp add: build_char_set_def default_request_def)

lemma replicate3: "replicate 3 c = [c, c, c]"
  by (simp add: numeral_3_eq_3)

lemma attempt_const_source:
  "attempt (module_init (const_source 0))
     (default_request\<lparr>req_length := 3, strength_level := lvl\<rparr>) j = ''AAA''"
  by (simp add: attempt_def candidate_const_source char_set_default replicate3
      ascii_uppercase_def)

subsection \<open>Facts about the concrete requests and sources\<close>

lemma AAA_rejected: "\<not> accepted w ''AAA'' lvl"
  by (simp add: accepted_iff universal_rules_def repeats3_def not_newline_def newline_def)

lemma default_char_set_nonempty:
  "build_char_set (default_request\<lparr>req_length := n, strength_level := lvl\<rparr>) \<noteq> []"
  by (simp add: build_char_set_Nil default_request_def)

lemma const_source_exhausted:
  "\<forall>j<100. \<not> accepted (module_init (const_source 0))
       (attempt (module_init (const_source 0))
          (default_request\<lparr>req_length := 3, strength_level := lvl\<rparr>) j)
       (strength_level (default_request\<lparr>req_length := 3, strength_level := lvl\<rparr>))"
  by (simp only: attempt_const_source AAA_rejected not_False_eq_True simp_thms)

lemma max_example:
  "fst (generate_password (module_init (scaled_source 26))
      (default_request\<lparr>req_length := 4, strength_level := ''max''\<rparr>)) = Password ''Aa0;''"
  by code_simp

lemma easy_example:
  "fst (generate_password (module_init (scaled_source 1))
      (default_request\<lparr>req_length := 3, strength_level := ''easy''\<rparr>)) = Password ''ABC''"
  by code_simp

lemma accepted_easy_attempt:
  assumes "build_char_set req \<noteq> []"
  shows "accepted w (attempt w req j) ''easy'' \<longleftrightarrow> universal_rules any_char w (attempt w req j)"
proof -
  have "newline \<notin> set (attempt w req j)"
    unfolding attempt_def using assms by (rule candidate_no_newline)
  then show ?thesis
    by (simp add: accepted_iff level_rule_def universal_rules_no_newline)
qed

lemma attempt_late_source:
  assumes "j < 100"
  shows "attempt (module_init (late_source 300))
           (default_request\<lparr>req_length := 3, strength_level := lvl\<rparr>) j = ''AAA''"
proof -
  let ?cs = "ascii_uppercase @ ascii_lowercase @ digits @ punctuation"
  have "map (\<lambda>i. ?cs ! (late_source 300 (j * 3 + i) mod length ?cs)) [0..<3]
          = map (\<lambda>i. ?cs ! 0) [0..<3]"
    by (rule map_cong) (use assms in \<open>auto simp: late_source_def\<close>)
  also have "\<dots> = ''AAA''"
    by (simp add: map_replicate_const replicate3 ascii_uppercase_def)
  finally show ?thesis
    by (simp add: attempt_def candidate_def char_set_default)
qed

lemma late_source_exhausted:
  "\<forall>j<100. \<not> accepted (module_init (late_source 300))
       (attempt (module_init (late_source 300))
          (default_request\<lparr>req_length := 3, strength_level := lvl\<rparr>) j)
       (strength_level (default_request\<lparr>req_length := 3, strength_level := lvl\<rparr>))"
  by (simp add: attempt_late_source AAA_rejected)

lemma late_source_fallback:
  "attempt (module_init (late_source 300))
     (default_request\<lparr>req_length := 3, strength_level := ''easy''\<rparr>) 100 = ''ABC''"
  by code_simp

lemma ABC_accepted: "accepted (module_init (late_source 300)) ''ABC'' ''easy''"
  by code_simp

lemma digits_only_char_set:
  "\<not> use_upper req \<Longrightarrow> \<not> use_lower req \<Longrightarrow> use_numbers req \<Longrightarrow> \<not> use_symbols req \<Longrightarrow>
   build_char_set req = digits"
  by (simp add: build_char_set_def)

lemma digits_request_fallback:
  "attempt (module_init (scaled_source 1))
     \<lparr>req_length = 10, use_upper = False, use_lower = False, use_numbers = True,
      use_symbols = False, strength_level = ''max''\<rparr> 100 = ''0123456789''"
  by code_simp

section \<open>The claims\<close>

subsection \<open>C1: what the checker accepts\<close>


subsection \<open>C2: termination and the two outcome shapes\<close>

text \<open>
  C2: a call with a non-empty alphabet returns after at most 101 candidate draws (at
  most 100 in the loop, at most one after it), and its response is the password alone
  when some candidate of the loop is accepted, the password with the warning when all
  100 are rejected; there is no third outcome. \<open>generate_password\<close> is a total function
  (the loop is a recursion on the number of iterations left), so every call returns.
\<close>

theorem generate_password_two_shapes:
  assumes "build_char_set req \<noteq> []"
  shows "((\<exists>j<100. accepted w (attempt w req j) (strength_level req) \<and>
            fst (generate_password w req) = Password (attempt w req j) \<and>
            draws (snd (generate_password w req)) = draws w + Suc j)
          \<or> ((\<forall>j<100. \<not> accepted w (attempt w req j) (strength_level req)) \<and>
              fst (generate_password w req) = PasswordWarning (attempt w req 100) warning_text \<and>
              draws (snd (generate_password w req)) = draws w + 101))
         \<and> draws (snd (generate_password w req)) \<le> draws w + 101
         \<and> consumed (snd (generate_password w req))
             \<le> consumed w + 101 * nat (req_length req)"
  using assms
proof (cases rule: generate_password_result [where w = w])
  case (success j)
  have "Suc j * nat (req_length req) \<le> 101 * nat (req_length req)"
    using success(1) by (intro mult_le_mono1) simp
  with success show ?thesis by auto
next
  case fallback
  then show ?thesis by simp
qed

theorem generate_password_two_shapes_witness:
  "build_char_set (default_request\<lparr>req_length := 3, strength_level := ''easy''\<rparr>) \<noteq> [] \<and>
   fst (generate_password (module_init (const_source 0))
          (default_request\<lparr>req_length := 3, strength_level := ''easy''\<rparr>))
     = PasswordWarning ''AAA'' warning_text \<and>
   draws (snd (generate_password (module_init (const_source 0))
          (default_request\<lparr>req_length := 3, strength_level := ''easy''\<rparr>))) = 101"
proof -
  let ?W = "module_init (const_source 0)"
  let ?R = "default_request\<lparr>req_length := 3, strength_level := ''easy''\<rparr>"
  have ne: "build_char_set ?R \<noteq> []"
    by (rule default_char_set_nonempty)
  from generate_password_two_shapes [OF ne, of ?W]
  have "(\<exists>j<100. accepted ?W (attempt ?W ?R j) (strength_level ?R) \<and>
            fst (generate_password ?W ?R) = Password (attempt ?W ?R j) \<and>
            draws (snd (generate_password ?W ?R)) = draws ?W + Suc j)
          \<or> ((\<forall>j<100. \<not> accepted ?W (attempt ?W ?R j) (strength_level ?R)) \<and>
              fst (generate_password ?W ?R) = PasswordWarning (attempt ?W ?R 100) warning_text \<and>
              draws (snd (generate_password ?W ?R)) = draws ?W + 101)"
    by (rule conjunct1)
  then have "fst (generate_password ?W ?R) = PasswordWarning (attempt ?W ?R 100) warning_text \<and>
        draws (snd (generate_password ?W ?R)) = draws ?W + 101"
  proof
    assume "\<exists>j<100. accepted ?W (attempt ?W ?R j) (strength_level ?R) \<and>
            fst (generate_password ?W ?R) = Password (attempt ?W ?R j) \<and>
            draws (snd (generate_password ?W ?R)) = draws ?W + Suc j"
    then obtain j where "j < 100" "accepted ?W (attempt ?W ?R j) (strength_level ?R)"
      by (elim exE conjE)
    with const_source_exhausted [of "''easy''"] show ?thesis
      by (elim allE [of _ j]) (erule impE, assumption, erule notE, assumption)
  next
    assume "(\<forall>j<100. \<not> accepted ?W (attempt ?W ?R j) (strength_level ?R)) \<and>
              fst (generate_password ?W ?R) = PasswordWarning (attempt ?W ?R 100) warning_text \<and>
              draws (snd (generate_password ?W ?R)) = draws ?W + 101"
    then show ?thesis by (elim conjE) (rule conjI)
  qed
  then show ?thesis
    using ne by (simp only: attempt_const_source module_init_sel) simp
qed

subsection \<open>C3: a password returned without warning was accepted\<close>

text \<open>
  C3: when the response is the password alone, the checker accepted that password:
  at level max its diversity is 4, at level strong at least 3, and at every level it has
  no run of three equal characters (of any character: the alphabet has no line feed) and
  contains, lowercased, no common word and no keyboard pattern.
\<close>

theorem generate_password_success_accepted:
  assumes "fst (generate_password w req) = Password p"
  shows "accepted w p (strength_level req) \<and>
         (strength_level req = ''max'' \<longrightarrow> diversity p = 4) \<and>
         (strength_level req = ''strong'' \<longrightarrow> 3 \<le> diversity p) \<and>
         \<not> repeats3 any_char p \<and>
         \<not> list_ex (\<lambda>word. substring word (lower p)) (COMMON_WORDS w) \<and>
         \<not> list_ex (\<lambda>pattern. substring pattern (lower p)) (KEYBOARD_PATTERNS w)"
proof -
  from generate_password_PasswordD [OF assms]
  obtain j where ne: "build_char_set req \<noteq> []" and p: "p = attempt w req j"
    and acc: "accepted w p (strength_level req)"
    by blast
  have "newline \<notin> set p"
    unfolding p attempt_def using ne by (rule candidate_no_newline)
  then have "repeats3 any_char p \<longleftrightarrow> repeats3 not_newline p"
    by (rule repeats3_no_newline)
  with acc show ?thesis
    by (auto simp: accepted_iff universal_rules_def level_rule_def)
qed

theorem generate_password_success_accepted_witness:
  "fst (generate_password (module_init (scaled_source 26))
      (default_request\<lparr>req_length := 4, strength_level := ''max''\<rparr>)) = Password ''Aa0;'' \<and>
   accepted (module_init (scaled_source 26)) ''Aa0;'' ''max'' \<and>
   diversity ''Aa0;'' = 4 \<and> \<not> repeats3 any_char ''Aa0;''"
proof -
  let ?W = "module_init (scaled_source 26)"
  let ?R = "default_request\<lparr>req_length := 4, strength_level := ''max''\<rparr>"
  have g: "fst (generate_password ?W ?R) = Password ''Aa0;''"
    by (rule max_example)
  have lvl: "strength_level ?R = ''max''"
    by simp
  from generate_password_success_accepted [OF g] g lvl show ?thesis
    by (simp only: simp_thms)
qed

subsection \<open>C4: the alphabet\<close>

text \<open>
  C4: the alphabet is the concatenation, in the order upper, lower, digit, symbol, of the
  classes whose flags are true; it is empty exactly when all four flags are false, and
  then the request is answered with the error response and the state is untouched (no
  random value was read, no candidate drawn).
\<close>

theorem char_set_by_class_order:
  "build_char_set req =
     concat (map snd (filter fst
       [(use_upper req, ascii_uppercase), (use_lower req, ascii_lowercase),
        (use_numbers req, digits), (use_symbols req, punctuation)])) \<and>
   (build_char_set req = [] \<longleftrightarrow>
      \<not> use_upper req \<and> \<not> use_lower req \<and> \<not> use_numbers req \<and> \<not> use_symbols req) \<and>
   (\<not> use_upper req \<and> \<not> use_lower req \<and> \<not> use_numbers req \<and> \<not> use_symbols req \<longrightarrow>
      generate_password w req =
        (Error ''Please select at least one character type.'' 400, w))"
  using build_char_set_concat [of req] build_char_set_Nil [of req]
    generate_password_empty [of req w]
  by blast

theorem char_set_by_class_order_witness:
  "build_char_set (default_request\<lparr>use_upper := False, use_symbols := False\<rparr>) =
     ''abcdefghijklmnopqrstuvwxyz0123456789'' \<and>
   fst (generate_password (module_init (const_source 0))
     (default_request\<lparr>use_upper := False, use_lower := False, use_numbers := False,
        use_symbols := False\<rparr>)) = Error ''Please select at least one character type.'' 400 \<and>
   consumed (snd (generate_password (module_init (const_source 0))
     (default_request\<lparr>use_upper := False, use_lower := False, use_numbers := False,
        use_symbols := False\<rparr>))) = 0"
  using char_set_by_class_order
      [of "default_request\<lparr>use_upper := False, use_symbols := False\<rparr>"]
    char_set_by_class_order
      [of "default_request\<lparr>use_upper := False, use_lower := False, use_numbers := False,
        use_symbols := False\<rparr>" "module_init (const_source 0)"]
  by (simp add: default_request_def ascii_lowercase_def digits_def)

subsection \<open>C5: level easy\<close>

text \<open>
  C5, as stated: with at least one flag true and level easy, every sequence of random
  draws leads to the response with the password alone. A random source that always
  yields 0 refutes it: with length 3 every candidate is AAA, the repetition rule rejects
  all 100 of them, and the response carries the warning.
\<close>

theorem easy_level_can_exhaust_budget:
  "use_upper (default_request\<lparr>req_length := 3, strength_level := ''easy''\<rparr>) \<and>
   strength_level (default_request\<lparr>req_length := 3, strength_level := ''easy''\<rparr>) = ''easy'' \<and>
   fst (generate_password (module_init (const_source 0))
          (default_request\<lparr>req_length := 3, strength_level := ''easy''\<rparr>))
     = PasswordWarning ''AAA'' warning_text"
proof -
  let ?W = "module_init (const_source 0)"
  let ?R = "default_request\<lparr>req_length := 3, strength_level := ''easy''\<rparr>"
  have "generate_password ?W ?R =
          (PasswordWarning (attempt ?W ?R 100) warning_text, advance ?W (nat (req_length ?R)) 101)"
    unfolding attempt_def
    by (rule generate_password_exhausted [OF default_char_set_nonempty
          const_source_exhausted [unfolded attempt_def]])
  then have "fst (generate_password ?W ?R) = PasswordWarning ''AAA'' warning_text"
    by (simp only: attempt_const_source fst_conv)
  then show ?thesis by (simp add: default_request_def)
qed

text \<open>
  C5, amended: with at least one flag true and level easy, the response is the password
  alone exactly when one of the 100 candidates of the loop passes the three universal
  rules, and the password with the warning exactly when none does.
\<close>

theorem easy_level_success_iff:
  assumes "use_upper req \<or> use_lower req \<or> use_numbers req \<or> use_symbols req"
    and "strength_level req = ''easy''"
  shows "((\<exists>p. fst (generate_password w req) = Password p) \<longleftrightarrow>
            (\<exists>j<100. universal_rules any_char w (attempt w req j))) \<and>
         ((\<exists>p. fst (generate_password w req) = PasswordWarning p warning_text) \<longleftrightarrow>
            (\<forall>j<100. \<not> universal_rules any_char w (attempt w req j)))"
proof -
  have ne: "build_char_set req \<noteq> []"
    using assms(1) by (simp add: build_char_set_Nil)
  note eq = accepted_easy_attempt [OF ne, of w]
  from ne show ?thesis
  proof (cases rule: generate_password_result [where w = w])
    case (success j)
    then have "\<exists>j<100. universal_rules any_char w (attempt w req j)"
      using eq assms(2) by auto
    with success(4) show ?thesis by auto
  next
    case fallback
    then have "\<forall>j<100. \<not> universal_rules any_char w (attempt w req j)"
      using eq assms(2) by auto
    with fallback(2) show ?thesis by auto
  qed
qed

theorem easy_level_success_iff_witness:
  "use_upper (default_request\<lparr>req_length := 3, strength_level := ''easy''\<rparr>) \<and>
   fst (generate_password (module_init (scaled_source 1))
      (default_request\<lparr>req_length := 3, strength_level := ''easy''\<rparr>)) = Password ''ABC'' \<and>
   (\<exists>j<100. universal_rules any_char (module_init (scaled_source 1))
      (attempt (module_init (scaled_source 1))
         (default_request\<lparr>req_length := 3, strength_level := ''easy''\<rparr>) j))"
proof -
  let ?W = "module_init (scaled_source 1)"
  let ?R = "default_request\<lparr>req_length := 3, strength_level := ''easy''\<rparr>"
  have u: "use_upper ?R" and l: "strength_level ?R = ''easy''"
    by (simp_all add: default_request_def)
  from u have f: "use_upper ?R \<or> use_lower ?R \<or> use_numbers ?R \<or> use_symbols ?R" ..
  have "\<exists>p. fst (generate_password ?W ?R) = Password p"
    using easy_example by (rule exI)
  with easy_level_success_iff [OF f l, of ?W]
  have "\<exists>j<100. universal_rules any_char ?W (attempt ?W ?R j)"
    by (elim conjE) (rule iffD1)
  with u easy_example show ?thesis by (intro conjI)
qed

subsection \<open>C6: the draw after the loop\<close>

text \<open>
  C6: when all 100 candidates are rejected, the response is the warning together with
  candidate number 100, a draw of its own: it is made of the values of the random source
  at the positions after those the loop has read, whether the checker would accept it
  plays no part, and any other run that rejects 100 candidates and reads the same values
  at these positions returns the same password, whatever its rejected candidates were.
\<close>

theorem fallback_is_fresh_draw:
  assumes "build_char_set req \<noteq> []"
    and "\<forall>j<100. \<not> accepted w (attempt w req j) (strength_level req)"
  shows "generate_password w req =
           (PasswordWarning (attempt w req 100) warning_text,
            advance w (nat (req_length req)) 101) \<and>
         attempt w req 100 =
           map (\<lambda>i. build_char_set req !
                  (entropy w (consumed w + 100 * nat (req_length req) + i)
                     mod length (build_char_set req)))
             [0..<nat (req_length req)] \<and>
         (\<forall>w'. consumed w' = consumed w \<and>
               (\<forall>i<nat (req_length req).
                   entropy w' (consumed w + 100 * nat (req_length req) + i) =
                   entropy w (consumed w + 100 * nat (req_length req) + i)) \<and>
               (\<forall>j<100. \<not> accepted w' (attempt w' req j) (strength_level req))
             \<longrightarrow> fst (generate_password w' req) = fst (generate_password w req))"
proof (intro conjI allI impI)
  show g: "generate_password w req =
           (PasswordWarning (attempt w req 100) warning_text,
            advance w (nat (req_length req)) 101)"
    unfolding attempt_def
    by (rule generate_password_exhausted [OF assms(1) assms(2) [unfolded attempt_def]])
  show "attempt w req 100 =
           map (\<lambda>i. build_char_set req !
                  (entropy w (consumed w + 100 * nat (req_length req) + i)
                     mod length (build_char_set req)))
             [0..<nat (req_length req)]"
    by (simp add: attempt_def candidate_def)
  fix w'
  assume h: "consumed w' = consumed w \<and>
               (\<forall>i<nat (req_length req).
                   entropy w' (consumed w + 100 * nat (req_length req) + i) =
                   entropy w (consumed w + 100 * nat (req_length req) + i)) \<and>
               (\<forall>j<100. \<not> accepted w' (attempt w' req j) (strength_level req))"
  then have rej': "\<forall>j<100. \<not> accepted w' (attempt w' req j) (strength_level req)"
    by blast
  have g': "generate_password w' req =
           (PasswordWarning (attempt w' req 100) warning_text,
            advance w' (nat (req_length req)) 101)"
    unfolding attempt_def
    by (rule generate_password_exhausted [OF assms(1) rej' [unfolded attempt_def]])
  have "attempt w' req 100 = attempt w req 100"
    using h by (auto simp: attempt_def candidate_def)
  with g g' show "fst (generate_password w' req) = fst (generate_password w req)"
    by simp
qed

theorem fallback_is_fresh_draw_witness:
  "fst (generate_password (module_init (late_source 300))
          (default_request\<lparr>req_length := 3, strength_level := ''easy''\<rparr>))
     = PasswordWarning ''ABC'' warning_text \<and>
   attempt (module_init (late_source 300))
     (default_request\<lparr>req_length := 3, strength_level := ''easy''\<rparr>) 99 = ''AAA'' \<and>
   accepted (module_init (late_source 300)) ''ABC'' ''easy''"
proof -
  let ?W = "module_init (late_source 300)"
  let ?R = "default_request\<lparr>req_length := 3, strength_level := ''easy''\<rparr>"
  from fallback_is_fresh_draw [OF default_char_set_nonempty late_source_exhausted, of "''easy''"]
  have "generate_password ?W ?R =
          (PasswordWarning (attempt ?W ?R 100) warning_text, advance ?W (nat (req_length ?R)) 101)"
    by (rule conjunct1)
  then have "fst (generate_password ?W ?R) = PasswordWarning ''ABC'' warning_text"
    by (simp only: late_source_fallback fst_conv)
  moreover have "attempt ?W ?R 99 = ''AAA''"
    by (rule attempt_late_source) simp
  ultimately show ?thesis
    using ABC_accepted by (intro conjI)
qed

subsection \<open>C7: unknown levels\<close>

text \<open>
  C7: for a level other than easy, strong and max the checker returns false on every
  candidate (as a value: the checker has no failing branch), and a call with such a
  level and a non-empty alphabet returns the password with the warning.
\<close>

theorem unknown_level_falls_back:
  assumes "strength_level req \<noteq> ''easy''" and "strength_level req \<noteq> ''strong''"
    and "strength_level req \<noteq> ''max''"
  shows "(\<forall>p. check_password_strength w p (strength_level req) = (False, w)) \<and>
         (build_char_set req \<noteq> [] \<longrightarrow>
            generate_password w req =
              (PasswordWarning (attempt w req 100) warning_text,
               advance w (nat (req_length req)) 101))"
proof -
  have rej: "\<not> accepted w' p (strength_level req)" for w' p
    using assms by (rule unknown_level_rejected)
  have "generate_password w req =
          (PasswordWarning (attempt w req 100) warning_text,
           advance w (nat (req_length req)) 101)"
    if "build_char_set req \<noteq> []"
    unfolding attempt_def using that by (rule generate_password_exhausted) (simp add: rej)
  then show ?thesis
    by (simp add: check_password_strength_eq rej)
qed

theorem unknown_level_falls_back_witness:
  "check_password_strength (module_init (const_source 0)) ''Tr0ub4dor&3'' ''ultra''
     = (False, module_init (const_source 0)) \<and>
   fst (generate_password (module_init (const_source 0))
          (default_request\<lparr>req_length := 3, strength_level := ''ultra''\<rparr>))
     = PasswordWarning ''AAA'' warning_text"
proof -
  let ?W = "module_init (const_source 0)"
  let ?R = "default_request\<lparr>req_length := 3, strength_level := ''ultra''\<rparr>"
  have l: "strength_level ?R \<noteq> ''easy''" "strength_level ?R \<noteq> ''strong''"
    "strength_level ?R \<noteq> ''max''"
    by simp_all
  note t = unknown_level_falls_back [OF l, of ?W]
  from t have "check_password_strength ?W ''Tr0ub4dor&3'' (strength_level ?R) = (False, ?W)"
    by blast
  moreover from t default_char_set_nonempty
  have "generate_password ?W ?R =
          (PasswordWarning (attempt ?W ?R 100) warning_text, advance ?W (nat (req_length ?R)) 101)"
    by blast
  then have "fst (generate_password ?W ?R) = PasswordWarning ''AAA'' warning_text"
    by (simp only: attempt_const_source fst_conv)
  ultimately show ?thesis by simp
qed

subsection \<open>C8: digits only at level max\<close>

text \<open>
  C8: when only the digits class is enabled and the level is max, no candidate, of any
  length and from any random source, has diversity 4, and the call returns the password
  with the warning.
\<close>

theorem digits_only_max_falls_back:
  assumes "\<not> use_upper req" and "\<not> use_lower req" and "use_numbers req"
    and "\<not> use_symbols req" and "strength_level req = ''max''"
  shows "(\<forall>j. diversity (attempt w req j) < 4) \<and>
         generate_password w req =
           (PasswordWarning (attempt w req 100) warning_text,
            advance w (nat (req_length req)) 101)"
proof -
  have cs: "build_char_set req = digits"
    using assms(1-4) by (rule digits_only_char_set)
  have ne: "build_char_set req \<noteq> []"
    by (simp add: cs digits_def)
  have d: "diversity (attempt w req j) \<le> 1" for j
  proof (rule digits_diversity)
    show "set (attempt w req j) \<subseteq> set digits"
      unfolding attempt_def using set_candidate [OF ne] by (simp add: cs)
  qed
  have rej: "\<not> accepted w (attempt w req j) (strength_level req)" for j
    using d [of j] by (simp add: accepted_iff level_rule_def assms(5))
  have "generate_password w req =
          (PasswordWarning (attempt w req 100) warning_text,
           advance w (nat (req_length req)) 101)"
    unfolding attempt_def using ne
    by (rule generate_password_exhausted) (simp add: rej [unfolded attempt_def])
  moreover have "diversity (attempt w req j) < 4" for j
    using d [of j] by simp
  ultimately show ?thesis by simp
qed

theorem digits_only_max_falls_back_witness:
  "fst (generate_password (module_init (scaled_source 1))
     \<lparr>req_length = 10, use_upper = False, use_lower = False, use_numbers = True,
      use_symbols = False, strength_level = ''max''\<rparr>) = PasswordWarning ''0123456789'' warning_text \<and>
   diversity ''0123456789'' < 4"
proof -
  let ?W = "module_init (scaled_source 1)"
  let ?R = "\<lparr>req_length = 10, use_upper = False, use_lower = False, use_numbers = True,
      use_symbols = False, strength_level = ''max''\<rparr>"
  have h: "\<not> use_upper ?R" "\<not> use_lower ?R" "use_numbers ?R" "\<not> use_symbols ?R"
    "strength_level ?R = ''max''"
    by simp_all
  note t = digits_only_max_falls_back [OF h, of ?W]
  from t have "generate_password ?W ?R =
      (PasswordWarning (attempt ?W ?R 100) warning_text, advance ?W (nat (req_length ?R)) 101)"
    by (rule conjunct2)
  then have "fst (generate_password ?W ?R) = PasswordWarning ''0123456789'' warning_text"
    by (simp only: digits_request_fallback fst_conv)
  moreover from t have "diversity (attempt ?W ?R 100) < 4"
    by blast
  then have "diversity ''0123456789'' < 4"
    by (simp only: digits_request_fallback)
  ultimately show ?thesis by (rule conjI)
qed

subsection \<open>C9: the checker is pure\<close>

text \<open>
  C9: the checker hands back the state it was given (tables, random source and counters
  unchanged), a second invocation on the same inputs returns the same result, and the
  verdict does not depend on the random source or the counters.
\<close>

theorem check_password_strength_pure:
  "snd (check_password_strength w password level) = w \<and>
   check_password_strength (snd (check_password_strength w password level)) password level
     = check_password_strength w password level \<and>
   fst (check_password_strength (w\<lparr>entropy := e, consumed := c, draws := d\<rparr>) password level)
     = fst (check_password_strength w password level)"
proof -
  have "accepted (w\<lparr>entropy := e, consumed := c, draws := d\<rparr>) password level
          = accepted w password level"
    by (rule accepted_tables) simp_all
  then show ?thesis
    by (simp add: check_password_strength_world accepted_def)
qed

theorem check_password_strength_pure_witness:
  "snd (check_password_strength (module_init (const_source 0)) ''Tr0ub4dor&3'' ''strong'')
     = module_init (const_source 0) \<and>
   fst (check_password_strength (module_init (scaled_source 7)) ''Tr0ub4dor&3'' ''strong'')
     = fst (check_password_strength (module_init (const_source 0)) ''Tr0ub4dor&3'' ''strong'')"
  using check_password_strength_pure [where w = "module_init (const_source 0)"
      and password = "''Tr0ub4dor&3''" and level = "''strong''" and e = "scaled_source 7"
      and c = 0 and d = 0]
  by (simp add: module_init_def)

subsection \<open>C10: length and characters of the password\<close>

text \<open>
  C10: with a non-empty alphabet and parsed length \<open>n\<close>, the password of either response
  shape has exactly \<open>max n 0\<close> characters, all from the alphabet; a length of 0 or below
  is not rejected, it gives the empty password.
\<close>

theorem password_length_and_alphabet:
  assumes "build_char_set req \<noteq> []"
  shows "\<exists>p. (fst (generate_password w req) = Password p \<or>
              fst (generate_password w req) = PasswordWarning p warning_text) \<and>
             int (length p) = max (req_length req) 0 \<and>
             set p \<subseteq> set (build_char_set req) \<and>
             (req_length req \<le> 0 \<longrightarrow> p = [])"
proof -
  have props: "int (length (attempt w req j)) = max (req_length req) 0 \<and>
      set (attempt w req j) \<subseteq> set (build_char_set req) \<and>
      (req_length req \<le> 0 \<longrightarrow> attempt w req j = [])" for j
    using set_candidate [OF assms, of w "nat (req_length req)" j]
    by (simp add: attempt_def length_candidate candidate_def)
  from assms show ?thesis
  proof (cases rule: generate_password_result [where w = w])
    case (success j)
    with props [of j] show ?thesis by auto
  next
    case fallback
    with props [of 100] show ?thesis by auto
  qed
qed

theorem password_length_and_alphabet_witness:
  "build_char_set (default_request\<lparr>req_length := - 3, strength_level := ''strong''\<rparr>) \<noteq> [] \<and>
   (fst (generate_password (module_init (const_source 0))
           (default_request\<lparr>req_length := - 3, strength_level := ''strong''\<rparr>)) = Password [] \<or>
    fst (generate_password (module_init (const_source 0))
           (default_request\<lparr>req_length := - 3, strength_level := ''strong''\<rparr>))
      = PasswordWarning [] warning_text)"
  using password_length_and_alphabet [OF default_char_set_nonempty [where n = "- 3" and lvl = "''strong''"],
      of "module_init (const_source 0)"]
    default_char_set_nonempty [where n = "- 3" and lvl = "''strong''"]
  by auto

end
